theory Spec2Isabelle
  imports Complex_Main "HOL-Library.Word" "HOL-Library.Sublist" "HOL-Library.Product_Lexorder"
begin

section \<open>JavaScript values used by the front end\<close>

text \<open>
  A JavaScript string is a sequence of UTF-16 code units. The literals of the source are
  ASCII except for four characters, which are given by their code unit:
  U+274C (cross mark), U+2705 (check mark), U+2026 (ellipsis) and U+00B7 (middle dot).
\<close>

type_synonym jschar = "16 word"
type_synonym jsstring = "jschar list"

definition lit :: "string \<Rightarrow> jsstring" where
  "lit s = map of_char s"

definition cross_mark :: jschar where "cross_mark = 0x274C"
definition check_mark :: jschar where "check_mark = 0x2705"
definition ellipsis :: jschar where "ellipsis = 0x2026"
definition middle_dot :: jschar where "middle_dot = 0x00B7"

text \<open>
  The code units that \<open>String.prototype.trim\<close> and \<open>parseInt\<close> skip: the WhiteSpace
  and LineTerminator productions of ECMAScript.
\<close>

definition is_js_whitespace :: "jschar \<Rightarrow> bool" where
  "is_js_whitespace c \<longleftrightarrow>
     c \<in> set [0x0009, 0x000A, 0x000B, 0x000C, 0x000D, 0x0020, 0x00A0, 0x1680,
              0x2000, 0x2001, 0x2002, 0x2003, 0x2004, 0x2005, 0x2006, 0x2007,
              0x2008, 0x2009, 0x200A, 0x2028, 0x2029, 0x202F, 0x205F, 0x3000, 0xFEFF]"

definition trim :: "jsstring \<Rightarrow> jsstring" where
  "trim s = rev (dropWhile is_js_whitespace (rev (dropWhile is_js_whitespace s)))"

text \<open>
  Numbers. The numbers this code handles are the result of \<open>parseInt\<close>, the state
  default 3 and the record count of the ingest response: integers, or NaN. A hit's score
  is a double that the handlers only copy; it is kept as a rational.
\<close>

datatype jsnum = NaN | Fin int

text \<open>Decimal digits of a natural number, most significant first.\<close>

fun digits_of :: "nat \<Rightarrow> jsstring" where
  "digits_of n = (if n < 10 then [of_nat (48 + n)]
                  else digits_of (n div 10) @ [of_nat (48 + n mod 10)])"

declare digits_of.simps [simp del]

text \<open>
  \<open>String(n)\<close> and the conversion inside a template literal, for the numbers above. It
  writes every integer in full; JavaScript does so below \<open>10^21\<close> and uses exponent
  notation from there on.
\<close>

definition String_num :: "jsnum \<Rightarrow> jsstring" where
  "String_num x = (case x of
       NaN \<Rightarrow> lit ''NaN''
     | Fin i \<Rightarrow> (if i < 0 then lit ''-'' @ digits_of (nat (- i)) else digits_of (nat i)))"

definition String_bool :: "bool \<Rightarrow> jsstring" where
  "String_bool b = (if b then lit ''true'' else lit ''false'')"

text \<open>
  \<open>parseInt(s, 10)\<close>: leading white space is skipped, an optional sign is read, then the
  longest run of decimal digits; without a digit the result is NaN. The value is kept as
  an exact integer; JavaScript rounds it to a double, which differs above \<open>2^53\<close>.
\<close>

definition is_digit :: "jschar \<Rightarrow> bool" where
  "is_digit c \<longleftrightarrow> 48 \<le> unat c \<and> unat c \<le> 57"

definition digits_value :: "jsstring \<Rightarrow> int" where
  "digits_value ds = foldl (\<lambda>acc c. 10 * acc + (int (unat c) - 48)) 0 ds"

definition parseInt10 :: "jsstring \<Rightarrow> jsnum" where
  "parseInt10 s =
     (let t = dropWhile is_js_whitespace s;
          neg = (case t of [] \<Rightarrow> False | c # _ \<Rightarrow> c = 0x2D);
          u = (case t of [] \<Rightarrow> [] | c # r \<Rightarrow> if c = 0x2B \<or> c = 0x2D then r else t);
          ds = takeWhile is_digit u
      in if ds = [] then NaN
         else Fin (if neg then - digits_value ds else digits_value ds))"

text \<open>The values a \<open>throw\<close> of this code can carry; all are instances of \<open>Error\<close>.\<close>

datatype js_error = Error jsstring | TypeError jsstring | SyntaxError jsstring

fun message :: "js_error \<Rightarrow> jsstring" where
  "message (Error m) = m"
| "message (TypeError m) = m"
| "message (SyntaxError m) = m"

fun instanceof_Error :: "js_error \<Rightarrow> bool" where
  "instanceof_Error (Error m) = True"
| "instanceof_Error (TypeError m) = True"
| "instanceof_Error (SyntaxError m) = True"

text \<open>\<open>a || b\<close> on strings: the empty string is falsy.\<close>

definition or_else :: "jsstring \<Rightarrow> jsstring \<Rightarrow> jsstring" where
  "or_else a b = (if a = [] then b else a)"

text \<open>\<open>Array.prototype.join\<close>.\<close>

fun join :: "jsstring \<Rightarrow> jsstring list \<Rightarrow> jsstring" where
  "join sep [] = []"
| "join sep [x] = x"
| "join sep (x # y # ys) = x @ sep @ join sep (y # ys)"


section \<open>The API client (\<open>lib/api.ts\<close>)\<close>

text \<open>
  \<open>API_BASE = process.env.NEXT_PUBLIC_API_BASE || "http://127.0.0.1:8000"\<close>; the
  environment variable is \<open>None\<close> when it is not set.
\<close>

definition API_BASE :: "jsstring option \<Rightarrow> jsstring" where
  "API_BASE env = (case env of
       None \<Rightarrow> lit ''http://127.0.0.1:8000''
     | Some v \<Rightarrow> or_else v (lit ''http://127.0.0.1:8000''))"

record File =
  name :: jsstring
  bytes :: "8 word list"

datatype form_value = FormText jsstring | FormFile File

datatype json_value =
    JNull
  | JNumber int
  | JString jsstring
  | JObject "(jsstring \<times> json_value) list"

text \<open>\<open>JSON.stringify\<close> writes NaN as \<open>null\<close>.\<close>

definition json_of_num :: "jsnum \<Rightarrow> json_value" where
  "json_of_num x = (case x of NaN \<Rightarrow> JNull | Fin i \<Rightarrow> JNumber i)"

text \<open>
  The body of a request: the text \<open>JSON.stringify\<close> produces for a value (kept as the
  value), or a \<open>FormData\<close> object, which \<open>fetch\<close> sends as multipart form data, its
  entries in the order they were appended.
\<close>

datatype request_body =
    JSON_stringify json_value
  | FormData "(jsstring \<times> form_value) list"

datatype http_verb = GET | POST

record request =
  url :: jsstring
  http_method :: http_verb
  headers :: "(jsstring \<times> jsstring) list"
  body :: request_body

text \<open>
  What \<open>fetch\<close> resolves to: \<open>ok\<close>, the body text that \<open>res.text()\<close> gives, and
  the outcome of \<open>res.json()\<close>, which is the parsed body or the error of the parser.
  \<open>fetch\<close> itself rejects when the request could not be made.
\<close>

record 'a response =
  ok :: bool
  text_body :: jsstring
  json_body :: "js_error + 'a"

datatype 'a fetch_result = Rejected js_error | Resolved "'a response"

type_synonym 'a fetch = "request \<Rightarrow> 'a fetch_result"

text \<open>
  Both helpers return the requests they issued together with their result; a thrown
  error is \<open>Inl\<close>.
\<close>

definition ingestCSV ::
  "jsstring option \<Rightarrow> 'a fetch \<Rightarrow> jsstring \<Rightarrow> File \<Rightarrow> bool \<Rightarrow> request list \<times> (js_error + 'a)" where
  "ingestCSV env fetch company file reset =
     (let form = [];
          form = form @ [(lit ''company'', FormText company)];
          form = form @ [(lit ''reset'', FormText (String_bool reset))];
          form = form @ [(lit ''file'', FormFile file)];
          req = \<lparr>url = API_BASE env @ lit ''/v1/ingest'', http_method = POST, headers = [],
                 body = FormData form\<rparr>
      in ([req],
          case fetch req of
            Rejected e \<Rightarrow> Inl e
          | Resolved res \<Rightarrow> if \<not> response.ok res then Inl (Error (text_body res)) else json_body res))"

definition chat ::
  "jsstring option \<Rightarrow> 'a fetch \<Rightarrow> jsstring \<Rightarrow> jsstring \<Rightarrow> jsnum option \<Rightarrow> request list \<times> (js_error + 'a)" where
  "chat env fetch company query top_k_arg =
     (let top_k = (case top_k_arg of None \<Rightarrow> Fin 3 | Some k \<Rightarrow> k);
          req = \<lparr>url = API_BASE env @ lit ''/v1/chat'', http_method = POST,
                 headers = [(lit ''Content-Type'', lit ''application/json'')],
                 body = JSON_stringify (JObject
                   [(lit ''company'', JString company),
                    (lit ''query'', JString query),
                    (lit ''top_k'', json_of_num top_k)])\<rparr>
      in ([req],
          case fetch req of
            Rejected e \<Rightarrow> Inl e
          | Resolved res \<Rightarrow> if \<not> response.ok res then Inl (Error (text_body res)) else json_body res))"

section \<open>The response types (\<open>types/api.ts\<close>)\<close>

record ChatHit =
  score :: rat
  data_type :: jsstring
  title :: jsstring
  hit_keywords :: jsstring

record Citation =
  data_type :: jsstring
  title :: jsstring

record ChatResponse =
  company :: jsstring
  query :: jsstring
  top_k :: jsnum
  answer :: jsstring
  citations :: "Citation list"
  hits :: "ChatHit list"

text \<open>
  Modelled from the spec: the body of the ingest response, which \<open>types/api.ts\<close> does
  not declare (\<open>ingestCSV\<close> returns \<open>any\<close>). Section 6 gives it as
  \<open>{ ok: bool, company: string, records: integer }\<close>, and the README shows
  \<open>{ "ok": true, "company": "myco", "records": 123 }\<close>.
\<close>

record IngestResponse =
  ok :: bool
  company :: jsstring
  records :: jsnum


section \<open>The chat page (\<open>app/page.tsx\<close>), first version\<close>

datatype role = user | assistant

record Message =
  id :: jsstring
  role :: role
  content :: jsstring
  citations :: "Citation list option"
  hits :: "ChatHit list option"

text \<open>The state of the component: one field for each \<open>useState\<close>.\<close>

record page_state =
  company :: jsstring
  file' :: "File option"
  reset :: bool
  ingestStatus :: "jsstring option"
  query :: jsstring
  topK :: jsnum
  loading :: bool
  messages :: "Message list"

definition initial_state :: page_state where
  "initial_state =
     \<lparr>company = lit ''instagram'', file' = None, reset = True, ingestStatus = None,
      query = [], topK = Fin 3, loading = False, messages = []\<rparr>"

definition disabledChat :: "'a page_state_scheme \<Rightarrow> bool" where
  "disabledChat s \<longleftrightarrow> loading s \<or> trim (page_state.company s) = []"

text \<open>
  What a handler did: the requests it issued, the exception that left it (if any) and the
  state of the component afterwards.
\<close>

record 's outcome =
  requests :: "request list"
  escaped :: "js_error option"
  state :: 's

definition dquote :: jschar where "dquote = 0x22"

text \<open>
  \<open>try { ... } catch (err) { ... } finally { ... }\<close> over the state. The \<open>try\<close> block
  and the \<open>catch\<close> block give the next state or throw (\<open>Inl\<close>). In both handlers of
  the page the only statement of the \<open>try\<close> block that can throw is its first, the
  awaited call of the API helper, so a block that throws has not changed the state. The
  result is the exception that leaves the statement, if any, and the state after the
  \<open>finally\<close> block.
\<close>

definition try_catch_finally ::
  "'s \<Rightarrow> ('s \<Rightarrow> js_error + 's) \<Rightarrow> (js_error \<Rightarrow> 's \<Rightarrow> js_error + 's) \<Rightarrow> ('s \<Rightarrow> 's)
     \<Rightarrow> js_error option \<times> 's" where
  "try_catch_finally s try_block catch_block finally_block =
     (case try_block s of
        Inr s' \<Rightarrow> (None, finally_block s')
      | Inl err \<Rightarrow>
          (case catch_block err s of
             Inr s' \<Rightarrow> (None, finally_block s')
           | Inl err' \<Rightarrow> (Some err', finally_block s)))"

text \<open>
  \<open>handleUpload\<close>. \<open>e.preventDefault()\<close> acts on the event only. The call of
  \<open>ingestCSV\<close> is the first statement of the \<open>try\<close> block: what it throws is thrown
  by the block. There is no \<open>finally\<close>.
\<close>

definition handleUpload ::
  "jsstring option \<Rightarrow> IngestResponse fetch \<Rightarrow> page_state \<Rightarrow> page_state outcome" where
  "handleUpload env fetch s =
     (case file' s of
        None \<Rightarrow>
          \<lparr>requests = [], escaped = None,
           state = s\<lparr>ingestStatus := Some (lit ''Please choose a CSV file first.'')\<rparr>\<rparr>
      | Some f \<Rightarrow>
          (let s1 = s\<lparr>ingestStatus := Some (lit ''Uploading & indexing'' @ [ellipsis])\<rparr>;
               (reqs, r) = ingestCSV env fetch (trim (page_state.company s)) f (reset s);
               (exn, s2) = try_catch_finally s1
                  (\<lambda>st. case r of
                     Inl err \<Rightarrow> Inl err
                   | Inr res \<Rightarrow> Inr (st\<lparr>ingestStatus := Some
                       ([check_mark] @ lit '' Ingested '' @ String_num (records res) @
                        lit '' rows for '' @ [dquote] @ IngestResponse.company res @
                        [dquote] @ lit ''.'')\<rparr>))
                  (\<lambda>err st. Inr (st\<lparr>ingestStatus := Some
                       ([cross_mark] @ lit '' '' @
                        or_else (message err) (lit ''Upload failed''))\<rparr>))
                  (\<lambda>st. st)
           in \<lparr>requests = reqs, escaped = exn, state = s2\<rparr>))"

text \<open>
  \<open>handleSend\<close>. The two calls of \<open>crypto.randomUUID()\<close> return \<open>uuid1\<close> and
  \<open>uuid2\<close>. The call of \<open>chat\<close> is the first statement of the \<open>try\<close> block: what
  it throws is thrown by the block. \<open>citationsText\<close> is computed and not used.
\<close>

definition handleSend ::
  "jsstring option \<Rightarrow> ChatResponse fetch \<Rightarrow> jsstring \<Rightarrow> jsstring \<Rightarrow> page_state
     \<Rightarrow> page_state outcome" where
  "handleSend env fetch uuid1 uuid2 s =
     (let q = trim (page_state.query s) in
      if q = [] then \<lparr>requests = [], escaped = None, state = s\<rparr>
      else
        (let userMsg = \<lparr>id = uuid1, role = user, content = q, citations = None, hits = None\<rparr>;
             s1 = s\<lparr>messages := messages s @ [userMsg]\<rparr>;
             s2 = s1\<lparr>query := []\<rparr>;
             s3 = s2\<lparr>loading := True\<rparr>;
             (reqs, r) = chat env fetch (trim (page_state.company s)) q (Some (topK s));
             (exn, s4) = try_catch_finally s3
                (\<lambda>st. case r of
                   Inl err \<Rightarrow> Inl err
                 | Inr res \<Rightarrow>
                     (let citationsText =
                              or_else
                                (join (lit '' | '')
                                   (map (\<lambda>c. Citation.data_type c @ lit '' '' @ [middle_dot] @
                                             lit '' '' @ Citation.title c)
                                        (ChatResponse.citations res)))
                                [];
                            content = or_else (answer res) (lit ''(no answer)'');
                            asstMsg = \<lparr>id = uuid2, role = assistant, content = content,
                                       citations = Some (ChatResponse.citations res),
                                       hits = Some (ChatResponse.hits res)\<rparr>
                        in Inr (st\<lparr>messages := messages st @ [asstMsg]\<rparr>)))
                (\<lambda>err st.
                  (let asstMsg = \<lparr>id = uuid2, role = assistant,
                                  content = [cross_mark] @ lit '' Error: '' @
                                            or_else (message err) (lit ''request failed''),
                                  citations = None, hits = None\<rparr>
                   in Inr (st\<lparr>messages := messages st @ [asstMsg]\<rparr>)))
                (\<lambda>st. st\<lparr>loading := False\<rparr>)
         in \<lparr>requests = reqs, escaped = exn, state = s4\<rparr>))"

text \<open>
  The controls. The top-k control is \<open><input type="number" min={1} max={20}>\<close> with
  \<open>onChange={(e) => setTopK(parseInt(e.target.value || "3", 10))}\<close>; the argument is
  \<open>e.target.value\<close>.
\<close>

definition onChange_query :: "jsstring \<Rightarrow> 'a page_state_scheme \<Rightarrow> 'a page_state_scheme" where
  "onChange_query v s = s\<lparr>query := v\<rparr>"

definition onChange_topK :: "jsstring \<Rightarrow> 'a page_state_scheme \<Rightarrow> 'a page_state_scheme" where
  "onChange_topK v s = s\<lparr>topK := parseInt10 (or_else v (lit ''3''))\<rparr>"

section \<open>The chat page, second version\<close>

record page_state2 = page_state +
  sidebarOpen :: bool

definition initial_state2 :: page_state2 where
  "initial_state2 =
     \<lparr>company = lit ''instagram'', file' = None, reset = True, ingestStatus = None,
      query = [], topK = Fin 3, loading = False, messages = [], sidebarOpen = False\<rparr>"

definition handleUpload2 ::
  "jsstring option \<Rightarrow> IngestResponse fetch \<Rightarrow> page_state2 \<Rightarrow> page_state2 outcome" where
  "handleUpload2 env fetch s =
     (case file' s of
        None \<Rightarrow>
          \<lparr>requests = [], escaped = None,
           state = s\<lparr>ingestStatus := Some (lit ''Please choose a CSV file first.'')\<rparr>\<rparr>
      | Some f \<Rightarrow>
          (let s1 = s\<lparr>ingestStatus := Some (lit ''Uploading & indexing'' @ [ellipsis])\<rparr>;
               (reqs, r) = ingestCSV env fetch (trim (page_state.company s)) f (reset s);
               (exn, s2) = try_catch_finally s1
                  (\<lambda>st. case r of
                     Inl err \<Rightarrow> Inl err
                   | Inr res \<Rightarrow> Inr (st\<lparr>ingestStatus := Some
                       ([check_mark] @ lit '' Ingested '' @ String_num (records res) @
                        lit '' rows for '' @ [dquote] @ IngestResponse.company res @
                        [dquote] @ lit ''.'')\<rparr>))
                  (\<lambda>err st.
                     (let errorMessage =
                            (if instanceof_Error err then message err else lit ''Upload failed'')
                      in Inr (st\<lparr>ingestStatus := Some
                                ([cross_mark] @ lit '' '' @ errorMessage)\<rparr>)))
                  (\<lambda>st. st)
           in \<lparr>requests = reqs, escaped = exn, state = s2\<rparr>))"

definition handleSend2 ::
  "jsstring option \<Rightarrow> ChatResponse fetch \<Rightarrow> jsstring \<Rightarrow> jsstring \<Rightarrow> page_state2
     \<Rightarrow> page_state2 outcome" where
  "handleSend2 env fetch uuid1 uuid2 s =
     (let q = trim (page_state.query s) in
      if q = [] then \<lparr>requests = [], escaped = None, state = s\<rparr>
      else
        (let userMsg = \<lparr>id = uuid1, role = user, content = q, citations = None, hits = None\<rparr>;
             s1 = s\<lparr>messages := messages s @ [userMsg]\<rparr>;
             s2 = s1\<lparr>query := []\<rparr>;
             s3 = s2\<lparr>loading := True\<rparr>;
             (reqs, r) = chat env fetch (trim (page_state.company s)) q (Some (topK s));
             (exn, s4) = try_catch_finally s3
                (\<lambda>st. case r of
                   Inl err \<Rightarrow> Inl err
                 | Inr res \<Rightarrow>
                     (let content = or_else (answer res) (lit ''(no answer)'');
                            asstMsg = \<lparr>id = uuid2, role = assistant, content = content,
                                       citations = Some (ChatResponse.citations res),
                                       hits = Some (ChatResponse.hits res)\<rparr>
                        in Inr (st\<lparr>messages := messages st @ [asstMsg]\<rparr>)))
                (\<lambda>err st.
                  (let errorMessage =
                         (if instanceof_Error err then message err else lit ''request failed'');
                       asstMsg = \<lparr>id = uuid2, role = assistant,
                                  content = [cross_mark] @ lit '' Error: '' @ errorMessage,
                                  citations = None, hits = None\<rparr>
                   in Inr (st\<lparr>messages := messages st @ [asstMsg]\<rparr>)))
                (\<lambda>st. st\<lparr>loading := False\<rparr>)
         in \<lparr>requests = reqs, escaped = exn, state = s4\<rparr>))"

section \<open>The retrieval engine\<close>

text \<open>
  The README places the back end in \<open>app.py\<close>, \<open>rag_core.py\<close> and \<open>settings.py\<close>,
  which the source tree does not contain. Its ingestion pipeline, its stores and its MMR
  selection are modelled from sections 3 and 4 of the specification. Persistence, the
  locks of section 5 and eviction are left out: a store is its in-memory structure.
\<close>

text \<open>
  Modelled from the spec: an embedding vector. The engine computes with floating-point
  numbers; the model takes real numbers.
\<close>

type_synonym vector = "real list"

text \<open>
  Modelled from the spec: the Row of section 3, the raw input unit with namespace,
  data_type, title, content and keywords. A field that the uploaded table does not have
  is \<open>None\<close>.
\<close>

record RawRow =
  raw_namespace :: "string option"
  raw_data_type :: "string option"
  raw_title :: "string option"
  raw_content :: "string option"
  raw_keywords :: "string option"

text \<open>Modelled from the spec: a Row that has all the required columns of section 6.\<close>

record Row =
  row_namespace :: string
  row_data_type :: string
  row_title :: string
  row_content :: string
  row_keywords :: string

text \<open>
  Modelled from the spec: the two errors of section 7 that ingestion can end with; a
  \<open>ValidationError\<close> identifies the offending row by its index.
\<close>

datatype engine_error = ValidationError nat | EmbeddingServiceError

text \<open>
  Modelled from the spec: section 4.3, "malformed rows (missing required fields) are
  rejected".
\<close>

definition validate_row :: "RawRow \<Rightarrow> Row option" where
  "validate_row r =
     (case (raw_namespace r, raw_data_type r, raw_title r, raw_content r, raw_keywords r) of
        (Some n, Some d, Some t, Some c, Some k) \<Rightarrow>
          Some \<lparr>row_namespace = n, row_data_type = d, row_title = t, row_content = c,
                row_keywords = k\<rparr>
      | _ \<Rightarrow> None)"

text \<open>
  Modelled from the spec: section 4.3, validation of the whole batch before embedding;
  the first malformed row ends it.
\<close>

fun validate_rows :: "nat \<Rightarrow> RawRow list \<Rightarrow> engine_error + Row list" where
  "validate_rows i [] = Inr []"
| "validate_rows i (r # rs) =
     (case validate_row r of
        None \<Rightarrow> Inl (ValidationError i)
      | Some v \<Rightarrow> (case validate_rows (Suc i) rs of
                    Inl e \<Rightarrow> Inl e
                  | Inr vs \<Rightarrow> Inr (v # vs)))"

text \<open>
  Modelled from the spec: section 3, "Identity key = deterministic hash of (data_type,
  title, content)". The hash function \<open>h\<close> is a parameter.
\<close>

definition identity :: "(string \<times> string \<times> string \<Rightarrow> 'k) \<Rightarrow> Row \<Rightarrow> 'k" where
  "identity h r = h (row_data_type r, row_title r, row_content r)"

text \<open>
  Modelled from the spec: the Chunk of section 3: identity key, data_type, title,
  keywords, content and its embedding vector.
\<close>

record 'k Chunk =
  chunk_key :: 'k
  chunk_data_type :: string
  chunk_title :: string
  chunk_keywords :: string
  chunk_content :: string
  chunk_vector :: vector

text \<open>
  Modelled from the spec: a metadata entry, section 6: "one record per chunk, same order
  as vectors".
\<close>

record 'k Metadata =
  meta_key :: 'k
  meta_data_type :: string
  meta_title :: string
  meta_keywords :: string
  meta_content :: string

text \<open>
  Modelled from the spec: the Company Store of section 3: the append-ordered chunks, the
  position-indexed array of their vectors, the metadata entries and the set of known
  identity keys.
\<close>

record 'k Store =
  chunks :: "'k Chunk list"
  vectors :: "vector list"
  metadata :: "'k Metadata list"
  keys :: "'k set"

text \<open>Modelled from the spec: the store of a namespace before its first ingestion.\<close>

definition empty_store :: "'k Store" where
  "empty_store = \<lparr>chunks = [], vectors = [], metadata = [], keys = {}\<rparr>"

text \<open>Modelled from the spec: the metadata entry written for a chunk.\<close>

definition metadata_of :: "'k Chunk \<Rightarrow> 'k Metadata" where
  "metadata_of c =
     \<lparr>meta_key = chunk_key c, meta_data_type = chunk_data_type c, meta_title = chunk_title c,
      meta_keywords = chunk_keywords c, meta_content = chunk_content c\<rparr>"

text \<open>
  Modelled from the spec: \<open>append(new_chunks)\<close> of section 4.2, which adds the chunks
  to the in-memory structure as one step.
\<close>

definition append_chunks :: "'k Store \<Rightarrow> 'k Chunk list \<Rightarrow> 'k Store" where
  "append_chunks st new =
     \<lparr>chunks = chunks st @ new,
      vectors = vectors st @ map chunk_vector new,
      metadata = metadata st @ map metadata_of new,
      keys = keys st \<union> set (map chunk_key new)\<rparr>"

text \<open>
  Modelled from the spec: the Fingerprint Index of section 4.1 inside the pipeline of
  section 4.3: a row is skipped when its key is in the store's key set or was accepted
  earlier in the same batch.
\<close>

fun surviving_rows :: "(string \<times> string \<times> string \<Rightarrow> 'k) \<Rightarrow> 'k set \<Rightarrow> Row list \<Rightarrow> Row list" where
  "surviving_rows h seen [] = []"
| "surviving_rows h seen (r # rs) =
     (if identity h r \<in> seen then surviving_rows h seen rs
      else r # surviving_rows h (insert (identity h r) seen) rs)"

text \<open>Modelled from the spec: the Chunk derived from a Row and its vector.\<close>

definition make_chunk :: "(string \<times> string \<times> string \<Rightarrow> 'k) \<Rightarrow> Row \<Rightarrow> vector \<Rightarrow> 'k Chunk" where
  "make_chunk h r v =
     \<lparr>chunk_key = identity h r, chunk_data_type = row_data_type r, chunk_title = row_title r,
      chunk_keywords = row_keywords r, chunk_content = row_content r, chunk_vector = v\<rparr>"

text \<open>Modelled from the spec: the Store Registry of section 2, from namespaces to stores.\<close>

type_synonym 'k registry = "string \<rightharpoonup> 'k Store"

text \<open>
  Modelled from the spec: the Embedding capability of section 4.3, external to the engine:
  it embeds a batch of rows or fails for the whole batch (\<open>None\<close>).
\<close>

type_synonym embedder = "Row list \<Rightarrow> vector list option"

text \<open>
  Modelled from the spec: \<open>load(namespace) -> Store | empty-store\<close> of section 4.2,
  without the persisted files.
\<close>

definition get_store :: "'k registry \<Rightarrow> string \<Rightarrow> 'k Store" where
  "get_store reg ns = (case reg ns of None \<Rightarrow> empty_store | Some st \<Rightarrow> st)"

text \<open>
  Modelled from the spec: \<open>reset()\<close> of section 4.2; the store is wiped and recreated.
\<close>

definition reset_store :: "'k registry \<Rightarrow> string \<Rightarrow> 'k registry" where
  "reset_store reg ns = reg(ns \<mapsto> empty_store)"

text \<open>
  Modelled from the spec: the Ingestion Pipeline of section 4.3. A requested reset comes
  first; rows are validated and deduplicated; the surviving rows are embedded as one
  batch; on success the chunks are appended and the number of newly added records is
  returned. On every failure the registry is the one before the call.
\<close>

definition ingest ::
  "(string \<times> string \<times> string \<Rightarrow> 'k) \<Rightarrow> embedder \<Rightarrow> 'k registry \<Rightarrow> string \<Rightarrow> RawRow list \<Rightarrow> bool
     \<Rightarrow> (engine_error + nat) \<times> 'k registry" where
  "ingest h emb reg ns rows reset_flag =
     (let reg0 = (if reset_flag then reset_store reg ns else reg);
          st0 = get_store reg0 ns
      in case validate_rows 0 rows of
           Inl e \<Rightarrow> (Inl e, reg)
         | Inr valid \<Rightarrow>
             (let survivors = surviving_rows h (keys st0) valid
              in case emb survivors of
                   None \<Rightarrow> (Inl EmbeddingServiceError, reg)
                 | Some vs \<Rightarrow>
                     (let new = map2 (make_chunk h) survivors vs
                      in (Inr (length new), reg0(ns \<mapsto> append_chunks st0 new)))))"

text \<open>
  Modelled from the spec: the mutations of a registry: an ingestion (with the behaviour of
  the embedding capability during that call) or a reset.
\<close>

datatype operation = Ingest string "RawRow list" bool embedder | Reset string

text \<open>
  Modelled from the spec: the effect of one mutation on the registry; a failed ingestion
  leaves it as it was.
\<close>

fun apply_operation ::
  "(string \<times> string \<times> string \<Rightarrow> 'k) \<Rightarrow> 'k registry \<Rightarrow> operation \<Rightarrow> 'k registry" where
  "apply_operation h reg (Ingest ns rows reset_flag emb) =
     snd (ingest h emb reg ns rows reset_flag)"
| "apply_operation h reg (Reset ns) = reset_store reg ns"

text \<open>
  Modelled from the spec: a history of mutations, starting from the registry without any
  store.
\<close>

definition run :: "(string \<times> string \<times> string \<Rightarrow> 'k) \<Rightarrow> operation list \<Rightarrow> 'k registry" where
  "run h ops = foldl (apply_operation h) Map.empty ops"

text \<open>
  Modelled from the spec: the three content fields of a raw row, the ones the identity key
  is computed from.
\<close>

definition content_triple :: "RawRow \<Rightarrow> string option \<times> string option \<times> string option" where
  "content_triple r = (raw_data_type r, raw_title r, raw_content r)"

subsection \<open>The Retriever's selection\<close>

text \<open>
  Modelled from the spec: section 4.4, step 3: vectors are normalised when they are
  embedded, "so cosine reduces to a dot product".
\<close>

definition dot :: "vector \<Rightarrow> vector \<Rightarrow> real" where
  "dot u v = sum_list (map2 (*) u v)"

text \<open>
  Modelled from the spec: the Hit of section 3, a chunk with its similarity to the query;
  \<open>hit_position\<close> is the chunk's position in the store, its insertion order.
\<close>

record 'k Hit =
  hit_chunk :: "'k Chunk"
  hit_position :: nat
  hit_score :: real

text \<open>
  Modelled from the spec: section 4.4, step 4: "the candidate's maximum similarity to any
  already-selected Chunk (0 if selected list is empty)".
\<close>

fun max_similarity :: "'k Hit \<Rightarrow> 'k Hit list \<Rightarrow> real" where
  "max_similarity c [] = 0"
| "max_similarity c [s] = dot (chunk_vector (hit_chunk c)) (chunk_vector (hit_chunk s))"
| "max_similarity c (s # ss) =
     max (dot (chunk_vector (hit_chunk c)) (chunk_vector (hit_chunk s))) (max_similarity c ss)"

text \<open>
  Modelled from the spec: section 4.4, step 4: the quantity
  \<open>\<lambda> * relevance(c) - (1 - \<lambda>) * max_similarity(c, selected)\<close>.
\<close>

definition mmr_score :: "real \<Rightarrow> 'k Hit list \<Rightarrow> 'k Hit \<Rightarrow> real" where
  "mmr_score lam selected c = lam * hit_score c - (1 - lam) * max_similarity c selected"

text \<open>
  Modelled from the spec: section 4.4, step 4: a candidate is preferred to another when its
  quantity is larger; "ties broken by higher original relevance, then insertion order".
\<close>

definition preferred :: "real \<Rightarrow> 'k Hit list \<Rightarrow> 'k Hit \<Rightarrow> 'k Hit \<Rightarrow> bool" where
  "preferred lam selected a b \<longleftrightarrow>
     mmr_score lam selected a > mmr_score lam selected b \<or>
     (mmr_score lam selected a = mmr_score lam selected b \<and>
      (hit_score a > hit_score b \<or>
       (hit_score a = hit_score b \<and> hit_position a < hit_position b)))"

text \<open>
  Modelled from the spec: section 4.4, step 4: the pick among the remaining candidates, a
  scan that replaces the best so far only by a preferred candidate.
\<close>

fun pick_best :: "real \<Rightarrow> 'k Hit list \<Rightarrow> 'k Hit \<Rightarrow> 'k Hit list \<Rightarrow> 'k Hit" where
  "pick_best lam selected best [] = best"
| "pick_best lam selected best (c # cs) =
     pick_best lam selected (if preferred lam selected c best then c else best) cs"

text \<open>
  Modelled from the spec: section 4.4, step 4: the selection loop, which stops "when top_k
  items are selected or candidates are exhausted"; the second argument counts the places
  still to fill.
\<close>

fun mmr_select :: "real \<Rightarrow> nat \<Rightarrow> 'k Hit list \<Rightarrow> 'k Hit list \<Rightarrow> 'k Hit list" where
  "mmr_select lam 0 selected remaining = selected"
| "mmr_select lam (Suc k) selected [] = selected"
| "mmr_select lam (Suc k) selected (c # cs) =
     (let best = pick_best lam selected c cs
      in mmr_select lam k (selected @ [best]) (remove1 best (c # cs)))"

text \<open>
  Modelled from the spec: section 4.4, step 4: MMR selection from a candidate pool,
  starting with the empty selected list.
\<close>

definition mmr :: "real \<Rightarrow> nat \<Rightarrow> 'k Hit list \<Rightarrow> 'k Hit list" where
  "mmr lam k pool = mmr_select lam k [] pool"

text \<open>
  Modelled from the spec: section 4.4, step 3: the ranking "by similarity descending, ties
  broken by earlier insertion order (stable)", as a sorting key.
\<close>

definition rank_key :: "'k Hit \<Rightarrow> real \<times> nat" where
  "rank_key c = (- hit_score c, hit_position c)"

text \<open>
  Modelled from the spec: "plain similarity-ranked top-k" of section 8: the first \<open>k\<close>
  candidates of the similarity ranking.
\<close>

definition plain_top_k :: "nat \<Rightarrow> 'k Hit list \<Rightarrow> 'k Hit list" where
  "plain_top_k k pool = take k (sort_key rank_key pool)"

text \<open>
  Modelled from the spec: the invariant of section 3 in the form the operations keep it:
  the vector array and the metadata entries are those of the chunks, position by position.
\<close>

definition store_aligned :: "'k Store \<Rightarrow> bool" where
  "store_aligned st \<longleftrightarrow>
     vectors st = map chunk_vector (chunks st) \<and> metadata st = map metadata_of (chunks st)"

text \<open>Modelled from the spec: the invariant of section 3, for every store of a registry.\<close>

definition registry_aligned :: "'k registry \<Rightarrow> bool" where
  "registry_aligned reg \<longleftrightarrow> (\<forall>st\<in>ran reg. store_aligned st)"

section \<open>Concrete inputs\<close>

definition chat_server_ok :: "ChatResponse fetch" where
  "chat_server_ok req = Resolved
     \<lparr>response.ok = True, text_body = [],
      json_body = Inr \<lparr>ChatResponse.company = lit ''acme'', query = lit ''hi'', top_k = Fin 5,
                       answer = lit ''hello'',
                       citations = [\<lparr>Citation.data_type = lit ''faq'', title = lit ''Login''\<rparr>],
                       hits = [\<lparr>score = 1 / 2, data_type = lit ''faq'', title = lit ''Login'',
                               hit_keywords = lit ''login''\<rparr>]\<rparr>\<rparr>"

definition chat_server_error :: "ChatResponse fetch" where
  "chat_server_error req = Resolved
     \<lparr>response.ok = False, text_body = lit ''boom'',
      json_body = Inl (SyntaxError (lit ''Unexpected token''))\<rparr>"


definition ingest_server_ok :: "bool \<Rightarrow> IngestResponse fetch" where
  "ingest_server_ok b req = Resolved
     \<lparr>response.ok = True, text_body = [],
      json_body = Inr \<lparr>IngestResponse.ok = b, company = lit ''acme'', records = Fin 5\<rparr>\<rparr>"

definition ingest_server_error :: "IngestResponse fetch" where
  "ingest_server_error req = Resolved
     \<lparr>response.ok = False, text_body = lit ''boom'',
      json_body = Inl (SyntaxError (lit ''Unexpected token''))\<rparr>"


definition ingest_server_down :: "IngestResponse fetch" where
  "ingest_server_down req = Rejected (TypeError (lit ''Failed to fetch''))"

definition csv_file :: File where
  "csv_file = \<lparr>name = lit ''faq.csv'', bytes = [0x61, 0x2C, 0x62]\<rparr>"

definition unit_embedder :: embedder where
  "unit_embedder rs = Some (map (\<lambda>r. [1, 0]) rs)"

definition triple_hash :: "string \<times> string \<times> string \<Rightarrow> string \<times> string \<times> string" where
  "triple_hash t = t"

definition faq_row :: "string \<Rightarrow> RawRow" where
  "faq_row kw =
     \<lparr>raw_namespace = Some ''myapp'', raw_data_type = Some ''faq'',
      raw_title = Some ''Login issue'', raw_content = Some ''Reset your password via email.'',
      raw_keywords = Some kw\<rparr>"

definition faq_store :: "(string \<times> string \<times> string) Store" where
  "faq_store =
     \<lparr>chunks = [\<lparr>chunk_key = (''faq'', ''Login issue'', ''Reset your password via email.''),
                  chunk_data_type = ''faq'', chunk_title = ''Login issue'',
                  chunk_keywords = ''login,password'',
                  chunk_content = ''Reset your password via email.'',
                  chunk_vector = [1, 0]\<rparr>],
      vectors = [[1, 0]],
      metadata = [\<lparr>meta_key = (''faq'', ''Login issue'', ''Reset your password via email.''),
                    meta_data_type = ''faq'', meta_title = ''Login issue'',
                    meta_keywords = ''login,password'',
                    meta_content = ''Reset your password via email.''\<rparr>],
      keys = {(''faq'', ''Login issue'', ''Reset your password via email.'')}\<rparr>"

definition sample_hit :: "nat \<Rightarrow> real \<Rightarrow> vector \<Rightarrow> nat Hit" where
  "sample_hit i s v =
     \<lparr>hit_chunk = \<lparr>chunk_key = i, chunk_data_type = ''faq'', chunk_title = ''t'',
                   chunk_keywords = '''', chunk_content = ''c'', chunk_vector = v\<rparr>,
      hit_position = i, hit_score = s\<rparr>"

section \<open>Properties of the API client and the page\<close>

lemma dropWhile_all_iff: "(\<forall>x\<in>set (dropWhile P xs). P x) \<longleftrightarrow> (\<forall>x\<in>set xs. P x)"
  by (induction xs) auto

lemma trim_eq_Nil_iff: "trim s = [] \<longleftrightarrow> (\<forall>c\<in>set s. is_js_whitespace c)"
  by (simp add: trim_def dropWhile_all_iff)

lemma prefix_or_else: "prefix t (or_else t d)"
  by (simp add: or_else_def)

text \<open>The handlers in closed form, one equation for each path.\<close>

lemma handleSend_blank:
  "trim (page_state.query s) = [] \<Longrightarrow>
     handleSend env fetch uuid1 uuid2 s = \<lparr>requests = [], escaped = None, state = s\<rparr>"
  by (simp add: handleSend_def)

lemma handleSend2_blank:
  "trim (page_state.query s) = [] \<Longrightarrow>
     handleSend2 env fetch uuid1 uuid2 s = \<lparr>requests = [], escaped = None, state = s\<rparr>"
  by (simp add: handleSend2_def)

lemma handleSend_ok:
  assumes "trim (page_state.query s) \<noteq> []"
    and "chat env fetch (trim (page_state.company s)) (trim (page_state.query s))
           (Some (topK s)) = (reqs, Inr res)"
  shows "handleSend env fetch uuid1 uuid2 s =
     \<lparr>requests = reqs, escaped = None,
      state = s\<lparr>messages := messages s @
          [\<lparr>id = uuid1, role = user, content = trim (page_state.query s),
            citations = None, hits = None\<rparr>,
           \<lparr>id = uuid2, role = assistant,
            content = or_else (answer res) (lit ''(no answer)''),
            citations = Some (ChatResponse.citations res),
            hits = Some (ChatResponse.hits res)\<rparr>],
        query := [], loading := False\<rparr>\<rparr>"
  using assms by (simp add: handleSend_def try_catch_finally_def Let_def)

lemma handleSend2_ok:
  assumes "trim (page_state.query s) \<noteq> []"
    and "chat env fetch (trim (page_state.company s)) (trim (page_state.query s))
           (Some (topK s)) = (reqs, Inr res)"
  shows "handleSend2 env fetch uuid1 uuid2 s =
     \<lparr>requests = reqs, escaped = None,
      state = s\<lparr>messages := messages s @
          [\<lparr>id = uuid1, role = user, content = trim (page_state.query s),
            citations = None, hits = None\<rparr>,
           \<lparr>id = uuid2, role = assistant,
            content = or_else (answer res) (lit ''(no answer)''),
            citations = Some (ChatResponse.citations res),
            hits = Some (ChatResponse.hits res)\<rparr>],
        query := [], loading := False\<rparr>\<rparr>"
  using assms by (simp add: handleSend2_def try_catch_finally_def Let_def)

lemma handleSend_failed:
  assumes "trim (page_state.query s) \<noteq> []"
    and "chat env fetch (trim (page_state.company s)) (trim (page_state.query s))
           (Some (topK s)) = (reqs, Inl err)"
  shows "handleSend env fetch uuid1 uuid2 s =
     \<lparr>requests = reqs, escaped = None,
      state = s\<lparr>messages := messages s @
          [\<lparr>id = uuid1, role = user, content = trim (page_state.query s),
            citations = None, hits = None\<rparr>,
           \<lparr>id = uuid2, role = assistant,
            content = [cross_mark] @ lit '' Error: '' @
                      or_else (message err) (lit ''request failed''),
            citations = None, hits = None\<rparr>],
        query := [], loading := False\<rparr>\<rparr>"
  using assms by (simp add: handleSend_def try_catch_finally_def Let_def)

lemma handleSend2_failed:
  assumes "trim (page_state.query s) \<noteq> []"
    and "chat env fetch (trim (page_state.company s)) (trim (page_state.query s))
           (Some (topK s)) = (reqs, Inl err)"
  shows "handleSend2 env fetch uuid1 uuid2 s =
     \<lparr>requests = reqs, escaped = None,
      state = s\<lparr>messages := messages s @
          [\<lparr>id = uuid1, role = user, content = trim (page_state.query s),
            citations = None, hits = None\<rparr>,
           \<lparr>id = uuid2, role = assistant,
            content = [cross_mark] @ lit '' Error: '' @ message err,
            citations = None, hits = None\<rparr>],
        query := [], loading := False\<rparr>\<rparr>"
  using assms by (cases err) (simp_all add: handleSend2_def try_catch_finally_def Let_def)

lemma handleUpload_no_file:
  "file' s = None \<Longrightarrow>
     handleUpload env fetch s =
       \<lparr>requests = [], escaped = None,
        state = s\<lparr>ingestStatus := Some (lit ''Please choose a CSV file first.'')\<rparr>\<rparr>"
  by (simp add: handleUpload_def)

lemma handleUpload2_no_file:
  "file' s = None \<Longrightarrow>
     handleUpload2 env fetch s =
       \<lparr>requests = [], escaped = None,
        state = s\<lparr>ingestStatus := Some (lit ''Please choose a CSV file first.'')\<rparr>\<rparr>"
  by (simp add: handleUpload2_def)

lemma handleUpload_ok:
  assumes "file' s = Some f"
    and "ingestCSV env fetch (trim (page_state.company s)) f (reset s) = (reqs, Inr res)"
  shows "handleUpload env fetch s =
     \<lparr>requests = reqs, escaped = None,
      state = s\<lparr>ingestStatus := Some
        ([check_mark] @ lit '' Ingested '' @ String_num (records res) @ lit '' rows for '' @
         [dquote] @ IngestResponse.company res @ [dquote] @ lit ''.'')\<rparr>\<rparr>"
  using assms by (simp add: handleUpload_def try_catch_finally_def Let_def)

lemma handleUpload2_ok:
  assumes "file' s = Some f"
    and "ingestCSV env fetch (trim (page_state.company s)) f (reset s) = (reqs, Inr res)"
  shows "handleUpload2 env fetch s =
     \<lparr>requests = reqs, escaped = None,
      state = s\<lparr>ingestStatus := Some
        ([check_mark] @ lit '' Ingested '' @ String_num (records res) @ lit '' rows for '' @
         [dquote] @ IngestResponse.company res @ [dquote] @ lit ''.'')\<rparr>\<rparr>"
  using assms by (simp add: handleUpload2_def try_catch_finally_def Let_def)



lemma chat_not_ok:
  assumes "fst (chat env fetch c q k) = [req]" and "fetch req = Resolved res"
    and "\<not> response.ok res"
  shows "snd (chat env fetch c q k) = Inl (Error (text_body res))"
  using assms by (auto simp: chat_def Let_def)

lemma ingestCSV_not_ok:
  assumes "fst (ingestCSV env fetch c f r) = [req]" and "fetch req = Resolved res"
    and "\<not> response.ok res"
  shows "snd (ingestCSV env fetch c f r) = Inl (Error (text_body res))"
  using assms by (auto simp: ingestCSV_def Let_def)

text \<open>
  C1. Every call of \<open>chat\<close> issues exactly one request: a POST to
  \<open>${API_BASE}/v1/chat\<close> with the header Content-Type: application/json and the JSON
  text of an object whose fields are company, query and top_k, in this order. When the
  response is ok and its body parses, \<open>chat\<close> returns the parsed body, a value of the
  declared type \<open>ChatResponse\<close> (company, query, top_k, answer, citations of data_type and
  title, hits of score, data_type, title and keywords).
\<close>

theorem chat_request_shape:
  fixes fetch :: "ChatResponse fetch"
  shows
  "(let top_k = (case k of None \<Rightarrow> Fin 3 | Some n \<Rightarrow> n);
        fields = [(lit ''company'', JString c), (lit ''query'', JString q),
                  (lit ''top_k'', json_of_num top_k)];
        req = \<lparr>url = API_BASE env @ lit ''/v1/chat'', http_method = POST,
               headers = [(lit ''Content-Type'', lit ''application/json'')],
               body = JSON_stringify (JObject fields)\<rparr>
    in fst (chat env fetch c q k) = [req] \<and>
       map fst fields = [lit ''company'', lit ''query'', lit ''top_k''] \<and>
       (\<forall>res r. fetch req = Resolved res \<and> response.ok res \<and> json_body res = Inr r
                \<longrightarrow> snd (chat env fetch c q k) = Inr r))"
  by (simp add: chat_def Let_def)

theorem chat_request_shape_witness:
  "chat None chat_server_ok (lit ''acme'') (lit ''hi'') (Some (Fin 5)) =
     ([\<lparr>url = lit ''http://127.0.0.1:8000/v1/chat'', http_method = POST,
        headers = [(lit ''Content-Type'', lit ''application/json'')],
        body = JSON_stringify (JObject
                 [(lit ''company'', JString (lit ''acme'')), (lit ''query'', JString (lit ''hi'')),
                  (lit ''top_k'', JNumber 5)])\<rparr>],
      Inr \<lparr>ChatResponse.company = lit ''acme'', query = lit ''hi'', top_k = Fin 5,
           answer = lit ''hello'',
           citations = [\<lparr>Citation.data_type = lit ''faq'', title = lit ''Login''\<rparr>],
           hits = [\<lparr>score = 1 / 2, data_type = lit ''faq'', title = lit ''Login'',
                   hit_keywords = lit ''login''\<rparr>]\<rparr>)"
  using chat_request_shape [of "Some (Fin 5)" "lit ''acme''" "lit ''hi''" None chat_server_ok]
  by (simp add: Let_def chat_server_ok_def prod_eq_iff API_BASE_def json_of_num_def lit_def)

text \<open>
  C2, as the claim states it, says that the upload handler consumes the \<open>ok\<close> field of
  the parsed body. It does not: a body with \<open>ok = false\<close> in a response with an ok
  status is reported as a successful ingestion, and the outcome of the handler is the one
  for \<open>ok = true\<close>, in both versions of the page.
\<close>

theorem upload_ignores_ok_field:
  "ingestStatus (state (handleUpload None (ingest_server_ok False)
       (initial_state\<lparr>file' := Some csv_file\<rparr>))) =
     Some ([check_mark] @ lit '' Ingested 5 rows for '' @ [dquote] @ lit ''acme'' @ [dquote] @
           lit ''.'') \<and>
   handleUpload None (ingest_server_ok False) (initial_state\<lparr>file' := Some csv_file\<rparr>) =
   handleUpload None (ingest_server_ok True) (initial_state\<lparr>file' := Some csv_file\<rparr>) \<and>
   handleUpload2 None (ingest_server_ok False) (initial_state2\<lparr>file' := Some csv_file\<rparr>) =
   handleUpload2 None (ingest_server_ok True) (initial_state2\<lparr>file' := Some csv_file\<rparr>)"
  by (simp add: ingestCSV_def handleUpload_def try_catch_finally_def handleUpload2_def Let_def
        ingest_server_ok_def initial_state_def initial_state2_def
        API_BASE_def String_bool_def String_num_def digits_of.simps or_else_def trim_def
        is_js_whitespace_def lit_def)

text \<open>
  C2, amended. Every call of \<open>ingestCSV\<close> issues exactly one request: a POST to
  \<open>${API_BASE}/v1/ingest\<close> whose body is form data with the entries company, reset (the
  string "true" or "false") and file, in this order. On an ok response whose body parses
  it returns the parsed body. The upload handler of either version then sets the status
  from the \<open>records\<close> and \<open>company\<close> fields of that body alone.
\<close>

theorem ingest_request_shape:
  fixes fetch :: "IngestResponse fetch" and s :: page_state and s2 :: page_state2
  shows
  "(let req = \<lparr>url = API_BASE env @ lit ''/v1/ingest'', http_method = POST, headers = [],
               body = FormData
                 [(lit ''company'', FormText c),
                  (lit ''reset'', FormText (if r then lit ''true'' else lit ''false'')),
                  (lit ''file'', FormFile f)]\<rparr>
    in fst (ingestCSV env fetch c f r) = [req] \<and>
       (\<forall>res b. fetch req = Resolved res \<and> response.ok res \<and> json_body res = Inr b
                \<longrightarrow> snd (ingestCSV env fetch c f r) = Inr b)) \<and>
   (\<forall>g b. file' s = Some g \<and>
        snd (ingestCSV env fetch (trim (page_state.company s)) g (reset s)) = Inr b \<longrightarrow>
      ingestStatus (state (handleUpload env fetch s)) =
        Some ([check_mark] @ lit '' Ingested '' @ String_num (records b) @ lit '' rows for '' @
              [dquote] @ IngestResponse.company b @ [dquote] @ lit ''.'')) \<and>
   (\<forall>g b. file' s2 = Some g \<and>
        snd (ingestCSV env fetch (trim (page_state.company s2)) g (reset s2)) = Inr b \<longrightarrow>
      ingestStatus (state (handleUpload2 env fetch s2)) =
        Some ([check_mark] @ lit '' Ingested '' @ String_num (records b) @ lit '' rows for '' @
              [dquote] @ IngestResponse.company b @ [dquote] @ lit ''.''))"
proof -
  have req: "(let req = \<lparr>url = API_BASE env @ lit ''/v1/ingest'', http_method = POST, headers = [],
               body = FormData
                 [(lit ''company'', FormText c),
                  (lit ''reset'', FormText (if r then lit ''true'' else lit ''false'')),
                  (lit ''file'', FormFile f)]\<rparr>
    in fst (ingestCSV env fetch c f r) = [req] \<and>
       (\<forall>res b. fetch req = Resolved res \<and> response.ok res \<and> json_body res = Inr b
                \<longrightarrow> snd (ingestCSV env fetch c f r) = Inr b))"
    by (simp add: ingestCSV_def Let_def String_bool_def)
  have st: "ingestStatus (state (handleUpload env fetch s)) =
        Some ([check_mark] @ lit '' Ingested '' @ String_num (records b) @ lit '' rows for '' @
              [dquote] @ IngestResponse.company b @ [dquote] @ lit ''.'')"
    if "file' s = Some g \<and>
        snd (ingestCSV env fetch (trim (page_state.company s)) g (reset s)) = Inr b" for g b
    using that handleUpload_ok [of s g env fetch
        "fst (ingestCSV env fetch (trim (page_state.company s)) g (reset s))" b]
    by (simp add: prod_eq_iff)
  have st2: "ingestStatus (state (handleUpload2 env fetch s2)) =
        Some ([check_mark] @ lit '' Ingested '' @ String_num (records b) @ lit '' rows for '' @
              [dquote] @ IngestResponse.company b @ [dquote] @ lit ''.'')"
    if "file' s2 = Some g \<and>
        snd (ingestCSV env fetch (trim (page_state.company s2)) g (reset s2)) = Inr b" for g b
    using that handleUpload2_ok [of s2 g env fetch
        "fst (ingestCSV env fetch (trim (page_state.company s2)) g (reset s2))" b]
    by (simp add: prod_eq_iff)
  from req st st2 show ?thesis by blast
qed

theorem ingest_request_shape_witness:
  "ingestCSV None (ingest_server_ok True) (lit ''acme'') csv_file False =
     ([\<lparr>url = lit ''http://127.0.0.1:8000/v1/ingest'', http_method = POST, headers = [],
        body = FormData [(lit ''company'', FormText (lit ''acme'')),
                         (lit ''reset'', FormText (lit ''false'')),
                         (lit ''file'', FormFile csv_file)]\<rparr>],
      Inr \<lparr>IngestResponse.ok = True, company = lit ''acme'', records = Fin 5\<rparr>) \<and>
   ingestStatus (state (handleUpload None (ingest_server_ok True)
       (initial_state\<lparr>file' := Some csv_file\<rparr>))) =
     Some ([check_mark] @ lit '' Ingested 5 rows for '' @ [dquote] @ lit ''acme'' @ [dquote] @
           lit ''.'') \<and>
   ingestStatus (state (handleUpload2 None (ingest_server_ok True)
       (initial_state2\<lparr>file' := Some csv_file\<rparr>))) =
     Some ([check_mark] @ lit '' Ingested 5 rows for '' @ [dquote] @ lit ''acme'' @ [dquote] @
           lit ''.'')"
  using ingest_request_shape
    [where env = None and fetch = "ingest_server_ok True" and c = "lit ''acme''"
       and f = csv_file and r = False
       and s = "initial_state\<lparr>file' := Some csv_file\<rparr>"
       and ?s2.0 = "initial_state2\<lparr>file' := Some csv_file\<rparr>"]
  by (simp add: ingestCSV_def handleUpload_def try_catch_finally_def handleUpload2_def Let_def
        ingest_server_ok_def initial_state_def initial_state2_def
        API_BASE_def String_bool_def String_num_def digits_of.simps or_else_def trim_def
        is_js_whitespace_def lit_def)

text \<open>
  C3 says that the top_k the page submits lies between 1 and 20. The control carries
  \<open>min={1}\<close> and \<open>max={20}\<close>, which bound its stepper only; \<open>onChange\<close> stores
  \<open>parseInt\<close> of whatever the field holds. After 50 is typed into the field of the
  initial page, the Send button is enabled, and sending a query issues a request that
  carries top_k = 50, in both versions.
\<close>

theorem top_k_control_unbounded:
  "topK (onChange_topK (lit ''50'') initial_state) = Fin 50 \<and>
   \<not> disabledChat (onChange_topK (lit ''50'') (onChange_query (lit ''hi'') initial_state)) \<and>
   requests (handleSend None chat_server_ok (lit ''u1'') (lit ''u2'')
      (onChange_topK (lit ''50'') (onChange_query (lit ''hi'') initial_state))) =
     [\<lparr>url = lit ''http://127.0.0.1:8000/v1/chat'', http_method = POST,
       headers = [(lit ''Content-Type'', lit ''application/json'')],
       body = JSON_stringify (JObject
                [(lit ''company'', JString (lit ''instagram'')),
                 (lit ''query'', JString (lit ''hi'')), (lit ''top_k'', JNumber 50)])\<rparr>] \<and>
   requests (handleSend2 None chat_server_ok (lit ''u1'') (lit ''u2'')
      (onChange_topK (lit ''50'') (onChange_query (lit ''hi'') initial_state2))) =
     [\<lparr>url = lit ''http://127.0.0.1:8000/v1/chat'', http_method = POST,
       headers = [(lit ''Content-Type'', lit ''application/json'')],
       body = JSON_stringify (JObject
                [(lit ''company'', JString (lit ''instagram'')),
                 (lit ''query'', JString (lit ''hi'')), (lit ''top_k'', JNumber 50)])\<rparr>]"
  by (simp add: chat_def handleSend_def try_catch_finally_def handleSend2_def Let_def
        onChange_topK_def disabledChat_def chat_server_ok_def
        onChange_query_def initial_state_def initial_state2_def parseInt10_def is_digit_def
        digits_value_def API_BASE_def json_of_num_def or_else_def trim_def
        is_js_whitespace_def lit_def)

text \<open>
  C4. When the response to the request of \<open>ingestCSV\<close> or of \<open>chat\<close> is not ok, the
  helper throws an \<open>Error\<close> whose message is the text of the response body. No
  exception leaves \<open>handleSend\<close>, whatever \<open>fetch\<close> does. When the response to the
  request of \<open>handleSend\<close> is not ok, the handler appends, after the user's message, an
  assistant message that begins with the cross mark, " Error: " and the body text, and
  leaves \<open>loading\<close> false. (In the first version an empty body text is followed by
  "request failed".)
\<close>

theorem failed_requests_degrade:
  fixes fetchI :: "'a fetch" and fetchC :: "ChatResponse fetch"
    and s :: page_state and s2 :: page_state2
  shows
  "(\<forall>req res. fst (ingestCSV env fetchI c f r) = [req] \<and> fetchI req = Resolved res \<and>
        \<not> response.ok res \<longrightarrow>
      snd (ingestCSV env fetchI c f r) = Inl (Error (text_body res))) \<and>
   (\<forall>req res. fst (chat env fetchC c q k) = [req] \<and> fetchC req = Resolved res \<and>
        \<not> response.ok res \<longrightarrow>
      snd (chat env fetchC c q k) = Inl (Error (text_body res))) \<and>
   escaped (handleSend env fetchC uuid1 uuid2 s) = None \<and>
   escaped (handleSend2 env fetchC uuid1 uuid2 s2) = None \<and>
   (\<forall>req res. requests (handleSend env fetchC uuid1 uuid2 s) = [req] \<and>
        fetchC req = Resolved res \<and> \<not> response.ok res \<longrightarrow>
      (let m = \<lparr>id = uuid2, role = assistant,
                  content = [cross_mark] @ lit '' Error: '' @
                            or_else (text_body res) (lit ''request failed''),
                  citations = None, hits = None\<rparr>
       in messages (state (handleSend env fetchC uuid1 uuid2 s)) =
            messages s @
            [\<lparr>id = uuid1, role = user, content = trim (page_state.query s),
              citations = None, hits = None\<rparr>, m] \<and>
          prefix ([cross_mark] @ lit '' Error: '' @ text_body res) (content m)) \<and>
      loading (state (handleSend env fetchC uuid1 uuid2 s)) = False) \<and>
   (\<forall>req res. requests (handleSend2 env fetchC uuid1 uuid2 s2) = [req] \<and>
        fetchC req = Resolved res \<and> \<not> response.ok res \<longrightarrow>
      (let m = \<lparr>id = uuid2, role = assistant,
                  content = [cross_mark] @ lit '' Error: '' @ text_body res,
                  citations = None, hits = None\<rparr>
       in messages (state (handleSend2 env fetchC uuid1 uuid2 s2)) =
            messages s2 @
            [\<lparr>id = uuid1, role = user, content = trim (page_state.query s2),
              citations = None, hits = None\<rparr>, m] \<and>
          prefix ([cross_mark] @ lit '' Error: '' @ text_body res) (content m)) \<and>
      loading (state (handleSend2 env fetchC uuid1 uuid2 s2)) = False)"
proof -
  have esc: "escaped (handleSend env fetchC uuid1 uuid2 s) = None"
  proof (cases "trim (page_state.query s) = []")
    case True
    then show ?thesis by (simp add: handleSend_blank)
  next
    case False
    obtain reqs r where c: "chat env fetchC (trim (page_state.company s))
        (trim (page_state.query s)) (Some (topK s)) = (reqs, r)"
      by (cases "chat env fetchC (trim (page_state.company s)) (trim (page_state.query s))
                   (Some (topK s))")
    show ?thesis
    proof (cases r)
      case (Inl err)
      with False c show ?thesis by (simp add: handleSend_failed)
    next
      case (Inr res)
      with False c show ?thesis by (simp add: handleSend_ok)
    qed
  qed
  have esc2: "escaped (handleSend2 env fetchC uuid1 uuid2 s2) = None"
  proof (cases "trim (page_state.query s2) = []")
    case True
    then show ?thesis by (simp add: handleSend2_blank)
  next
    case False
    obtain reqs r where c: "chat env fetchC (trim (page_state.company s2))
        (trim (page_state.query s2)) (Some (topK s2)) = (reqs, r)"
      by (cases "chat env fetchC (trim (page_state.company s2)) (trim (page_state.query s2))
                   (Some (topK s2))")
    show ?thesis
    proof (cases r)
      case (Inl err)
      with False c show ?thesis by (simp add: handleSend2_failed)
    next
      case (Inr res)
      with False c show ?thesis by (simp add: handleSend2_ok)
    qed
  qed
  have send: "(let m = \<lparr>id = uuid2, role = assistant,
                  content = [cross_mark] @ lit '' Error: '' @
                            or_else (text_body res) (lit ''request failed''),
                  citations = None, hits = None\<rparr>
       in messages (state (handleSend env fetchC uuid1 uuid2 s)) =
            messages s @
            [\<lparr>id = uuid1, role = user, content = trim (page_state.query s),
              citations = None, hits = None\<rparr>, m] \<and>
          prefix ([cross_mark] @ lit '' Error: '' @ text_body res) (content m)) \<and>
      loading (state (handleSend env fetchC uuid1 uuid2 s)) = False"
    if a: "requests (handleSend env fetchC uuid1 uuid2 s) = [req] \<and>
        fetchC req = Resolved res \<and> \<not> response.ok res" for req res
  proof -
    from a have q: "trim (page_state.query s) \<noteq> []"
      by (auto simp: handleSend_blank)
    obtain reqs r where c: "chat env fetchC (trim (page_state.company s))
        (trim (page_state.query s)) (Some (topK s)) = (reqs, r)"
      by (cases "chat env fetchC (trim (page_state.company s)) (trim (page_state.query s))
                   (Some (topK s))")
    have "requests (handleSend env fetchC uuid1 uuid2 s) = reqs"
      using q c by (cases r) (simp_all add: handleSend_failed handleSend_ok)
    with a c have "fst (chat env fetchC (trim (page_state.company s))
        (trim (page_state.query s)) (Some (topK s))) = [req]" by simp
    from chat_not_ok [OF this] a c have "r = Inl (Error (text_body res))" by simp
    with q c show ?thesis by (simp add: handleSend_failed Let_def prefix_or_else)
  qed
  have send2: "(let m = \<lparr>id = uuid2, role = assistant,
                  content = [cross_mark] @ lit '' Error: '' @ text_body res,
                  citations = None, hits = None\<rparr>
       in messages (state (handleSend2 env fetchC uuid1 uuid2 s2)) =
            messages s2 @
            [\<lparr>id = uuid1, role = user, content = trim (page_state.query s2),
              citations = None, hits = None\<rparr>, m] \<and>
          prefix ([cross_mark] @ lit '' Error: '' @ text_body res) (content m)) \<and>
      loading (state (handleSend2 env fetchC uuid1 uuid2 s2)) = False"
    if a: "requests (handleSend2 env fetchC uuid1 uuid2 s2) = [req] \<and>
        fetchC req = Resolved res \<and> \<not> response.ok res" for req res
  proof -
    from a have q: "trim (page_state.query s2) \<noteq> []"
      by (auto simp: handleSend2_blank)
    obtain reqs r where c: "chat env fetchC (trim (page_state.company s2))
        (trim (page_state.query s2)) (Some (topK s2)) = (reqs, r)"
      by (cases "chat env fetchC (trim (page_state.company s2)) (trim (page_state.query s2))
                   (Some (topK s2))")
    have "requests (handleSend2 env fetchC uuid1 uuid2 s2) = reqs"
      using q c by (cases r) (simp_all add: handleSend2_failed handleSend2_ok)
    with a c have "fst (chat env fetchC (trim (page_state.company s2))
        (trim (page_state.query s2)) (Some (topK s2))) = [req]" by simp
    from chat_not_ok [OF this] a c have "r = Inl (Error (text_body res))" by simp
    with q c show ?thesis by (simp add: handleSend2_failed Let_def)
  qed
  show ?thesis
    using esc esc2 send send2 by (intro conjI allI impI) (blast intro: chat_not_ok ingestCSV_not_ok)+
qed

theorem failed_requests_degrade_witness:
  "ingestCSV None ingest_server_error (lit ''acme'') csv_file True =
     ([\<lparr>url = lit ''http://127.0.0.1:8000/v1/ingest'', http_method = POST, headers = [],
        body = FormData [(lit ''company'', FormText (lit ''acme'')),
                         (lit ''reset'', FormText (lit ''true'')),
                         (lit ''file'', FormFile csv_file)]\<rparr>],
      Inl (Error (lit ''boom''))) \<and>
   snd (chat None chat_server_error (lit ''acme'') (lit ''hi'') (Some (Fin 3))) =
     Inl (Error (lit ''boom'')) \<and>
   handleSend None chat_server_error (lit ''u1'') (lit ''u2'') (initial_state\<lparr>query := lit ''hi''\<rparr>) =
     \<lparr>requests =
        [\<lparr>url = lit ''http://127.0.0.1:8000/v1/chat'', http_method = POST,
          headers = [(lit ''Content-Type'', lit ''application/json'')],
          body = JSON_stringify (JObject
                   [(lit ''company'', JString (lit ''instagram'')),
                    (lit ''query'', JString (lit ''hi'')), (lit ''top_k'', JNumber 3)])\<rparr>],
      escaped = None,
      state = initial_state
        \<lparr>messages :=
           [\<lparr>id = lit ''u1'', role = user, content = lit ''hi'', citations = None, hits = None\<rparr>,
            \<lparr>id = lit ''u2'', role = assistant,
             content = [cross_mark] @ lit '' Error: boom'', citations = None, hits = None\<rparr>]\<rparr>\<rparr> \<and>
   messages (state (handleSend2 None chat_server_error (lit ''u1'') (lit ''u2'')
        (initial_state2\<lparr>query := lit ''hi''\<rparr>))) =
     [\<lparr>id = lit ''u1'', role = user, content = lit ''hi'', citations = None, hits = None\<rparr>,
      \<lparr>id = lit ''u2'', role = assistant,
       content = [cross_mark] @ lit '' Error: boom'', citations = None, hits = None\<rparr>]"
  using failed_requests_degrade
    [where env = None and fetchI = ingest_server_error and c = "lit ''acme''"
       and f = csv_file and r = True
       and fetchC = chat_server_error and q = "lit ''hi''" and k = "Some (Fin 3)"
       and ?uuid1.0 = "lit ''u1''" and ?uuid2.0 = "lit ''u2''"
       and s = "initial_state\<lparr>query := lit ''hi''\<rparr>"
       and ?s2.0 = "initial_state2\<lparr>query := lit ''hi''\<rparr>"]
  by (simp add: ingestCSV_def chat_def handleSend_def try_catch_finally_def handleSend2_def Let_def
        chat_server_error_def ingest_server_error_def initial_state_def initial_state2_def
        API_BASE_def String_bool_def json_of_num_def or_else_def trim_def
        is_js_whitespace_def lit_def)




text \<open>
  C9. A call of \<open>chat\<close> without its third argument sends top_k = 3 in the JSON body, and
  both versions of the page start with \<open>topK = 3\<close>.
\<close>

theorem chat_default_top_k:
  "fst (chat env fetch c q None) =
     [\<lparr>url = API_BASE env @ lit ''/v1/chat'', http_method = POST,
       headers = [(lit ''Content-Type'', lit ''application/json'')],
       body = JSON_stringify (JObject
                [(lit ''company'', JString c), (lit ''query'', JString q),
                 (lit ''top_k'', JNumber 3)])\<rparr>]
   \<and> topK initial_state = Fin 3 \<and> topK initial_state2 = Fin 3"
  by (simp add: chat_def Let_def json_of_num_def initial_state_def initial_state2_def)

text \<open>
  C10. When the query is empty or consists of white space only, \<open>handleSend\<close> issues no
  request and returns the state it was given; when no file is selected, \<open>handleUpload\<close>
  issues no request and changes only \<open>ingestStatus\<close>, to "Please choose a CSV file
  first.". Both hold in both versions of the page.
\<close>

theorem degenerate_inputs_issue_no_request:
  fixes s :: page_state and s2 :: page_state2
  shows
  "((\<forall>c\<in>set (page_state.query s). is_js_whitespace c) \<longrightarrow>
      handleSend env fetch uuid1 uuid2 s = \<lparr>requests = [], escaped = None, state = s\<rparr>) \<and>
   ((\<forall>c\<in>set (page_state.query s2). is_js_whitespace c) \<longrightarrow>
      handleSend2 env fetch uuid1 uuid2 s2 = \<lparr>requests = [], escaped = None, state = s2\<rparr>) \<and>
   (file' s = None \<longrightarrow>
      handleUpload env fetch' s =
        \<lparr>requests = [], escaped = None,
         state = s\<lparr>ingestStatus := Some (lit ''Please choose a CSV file first.'')\<rparr>\<rparr>) \<and>
   (file' s2 = None \<longrightarrow>
      handleUpload2 env fetch' s2 =
        \<lparr>requests = [], escaped = None,
         state = s2\<lparr>ingestStatus := Some (lit ''Please choose a CSV file first.'')\<rparr>\<rparr>)"
  by (simp add: handleSend_blank handleSend2_blank handleUpload_no_file handleUpload2_no_file
        trim_eq_Nil_iff)

theorem degenerate_inputs_issue_no_request_witness:
  "handleSend None chat_server_ok (lit ''u1'') (lit ''u2'') (initial_state\<lparr>query := lit '' ''\<rparr>) =
     \<lparr>requests = [], escaped = None, state = initial_state\<lparr>query := lit '' ''\<rparr>\<rparr> \<and>
   handleSend2 None chat_server_ok (lit ''u1'') (lit ''u2'') (initial_state2\<lparr>query := lit '' ''\<rparr>) =
     \<lparr>requests = [], escaped = None, state = initial_state2\<lparr>query := lit '' ''\<rparr>\<rparr> \<and>
   handleUpload None ingest_server_down initial_state =
     \<lparr>requests = [], escaped = None,
      state = initial_state\<lparr>ingestStatus := Some (lit ''Please choose a CSV file first.'')\<rparr>\<rparr> \<and>
   handleUpload2 None ingest_server_down initial_state2 =
     \<lparr>requests = [], escaped = None,
      state = initial_state2\<lparr>ingestStatus := Some (lit ''Please choose a CSV file first.'')\<rparr>\<rparr>"
proof -
  have ws: "\<forall>c\<in>set (lit '' ''). is_js_whitespace c"
    by (simp add: lit_def is_js_whitespace_def)
  have f1: "file' initial_state = None" and f2: "file' initial_state2 = None"
    by (simp_all add: initial_state_def initial_state2_def)
  note t = degenerate_inputs_issue_no_request
      [of "initial_state\<lparr>query := lit '' ''\<rparr>" None chat_server_ok "lit ''u1''" "lit ''u2''"
          "initial_state2\<lparr>query := lit '' ''\<rparr>" ingest_server_down]
  note u = degenerate_inputs_issue_no_request
      [of initial_state None chat_server_ok "lit ''u1''" "lit ''u2''"
          initial_state2 ingest_server_down]
  from t ws have a: "handleSend None chat_server_ok (lit ''u1'') (lit ''u2'')
        (initial_state\<lparr>query := lit '' ''\<rparr>) =
     \<lparr>requests = [], escaped = None, state = initial_state\<lparr>query := lit '' ''\<rparr>\<rparr>"
    and b: "handleSend2 None chat_server_ok (lit ''u1'') (lit ''u2'')
        (initial_state2\<lparr>query := lit '' ''\<rparr>) =
     \<lparr>requests = [], escaped = None, state = initial_state2\<lparr>query := lit '' ''\<rparr>\<rparr>"
    by simp_all
  from u f1 f2 have c: "handleUpload None ingest_server_down initial_state =
     \<lparr>requests = [], escaped = None,
      state = initial_state\<lparr>ingestStatus := Some (lit ''Please choose a CSV file first.'')\<rparr>\<rparr>"
   and d: "handleUpload2 None ingest_server_down initial_state2 =
     \<lparr>requests = [], escaped = None,
      state = initial_state2\<lparr>ingestStatus := Some (lit ''Please choose a CSV file first.'')\<rparr>\<rparr>"
    by simp_all
  from a b c d show ?thesis by simp
qed

section \<open>Properties of the retrieval engine\<close>

subsection \<open>Stores stay aligned\<close>

lemma store_aligned_empty: "store_aligned empty_store"
  by (simp add: store_aligned_def empty_store_def)

lemma store_aligned_append: "store_aligned st \<Longrightarrow> store_aligned (append_chunks st new)"
  by (simp add: store_aligned_def append_chunks_def)

lemma registry_aligned_upd:
  "registry_aligned reg \<Longrightarrow> store_aligned st \<Longrightarrow> registry_aligned (reg(ns \<mapsto> st))"
  by (auto simp: registry_aligned_def ran_def)

lemma registry_aligned_get: "registry_aligned reg \<Longrightarrow> store_aligned (get_store reg ns)"
  by (auto simp: registry_aligned_def get_store_def ran_def store_aligned_empty split: option.split)

lemma registry_aligned_reset: "registry_aligned reg \<Longrightarrow> registry_aligned (reset_store reg ns)"
  by (simp add: reset_store_def registry_aligned_upd store_aligned_empty)

lemma registry_aligned_ingest:
  assumes "registry_aligned reg"
  shows "registry_aligned (snd (ingest h emb reg ns rows reset_flag))"
proof -
  define reg0 where "reg0 = (if reset_flag then reset_store reg ns else reg)"
  have r0: "registry_aligned reg0"
    using assms by (simp add: reg0_def registry_aligned_reset)
  then have "registry_aligned (reg0(ns \<mapsto> append_chunks (get_store reg0 ns) new))" for new
    by (intro registry_aligned_upd store_aligned_append registry_aligned_get)
  then show ?thesis
    using assms unfolding ingest_def Let_def reg0_def [symmetric]
    by (auto split: sum.split option.split)
qed

lemma registry_aligned_apply:
  "registry_aligned reg \<Longrightarrow> registry_aligned (apply_operation h reg op)"
  by (cases op) (simp_all add: registry_aligned_ingest registry_aligned_reset)

lemma registry_aligned_foldl:
  "registry_aligned reg \<Longrightarrow> registry_aligned (foldl (apply_operation h) reg ops)"
  by (induction ops arbitrary: reg) (simp_all add: registry_aligned_apply)

lemma registry_aligned_run: "registry_aligned (run h ops)"
  unfolding run_def by (rule registry_aligned_foldl) (simp add: registry_aligned_def)

text \<open>
  C6. After every history of ingestions and resets, every store of the registry has as
  many vectors as chunks and as many chunks as metadata entries, and the vector (and the
  metadata entry) at a position is the one of the chunk at that position. An ingestion
  that fails leaves the registry as it was, so the successful mutations are the ones that
  change it.
\<close>

theorem store_lengths_agree:
  assumes "run h ops ns = Some st"
  shows "length (vectors st) = length (chunks st) \<and>
         length (chunks st) = length (metadata st) \<and>
         (\<forall>i<length (chunks st). vectors st ! i = chunk_vector (chunks st ! i) \<and>
                                  metadata st ! i = metadata_of (chunks st ! i))"
proof -
  from assms have "st \<in> ran (run h ops)" by (auto simp: ran_def)
  with registry_aligned_run [of h ops] have "store_aligned st"
    by (simp add: registry_aligned_def)
  then show ?thesis by (simp add: store_aligned_def)
qed

theorem store_lengths_agree_witness:
  "run triple_hash [Reset ''myco'', Ingest ''myco'' [faq_row ''login,password''] False unit_embedder]
     ''myco'' = Some faq_store \<and>
   length (vectors faq_store) = 1 \<and> length (chunks faq_store) = 1 \<and>
   length (metadata faq_store) = 1 \<and>
   vectors faq_store ! 0 = chunk_vector (chunks faq_store ! 0)"
proof -
  have r: "run triple_hash
             [Reset ''myco'', Ingest ''myco'' [faq_row ''login,password''] False unit_embedder]
             ''myco'' = Some faq_store"
    by (simp add: run_def ingest_def Let_def reset_store_def get_store_def empty_store_def
          validate_row_def faq_row_def unit_embedder_def identity_def triple_hash_def
          make_chunk_def append_chunks_def metadata_of_def faq_store_def)
  from store_lengths_agree [OF r] have
    "length (vectors faq_store) = length (chunks faq_store)"
    "length (chunks faq_store) = length (metadata faq_store)"
    "vectors faq_store ! 0 = chunk_vector (chunks faq_store ! 0)"
    by (simp_all add: faq_store_def)
  moreover have "length (chunks faq_store) = 1" by (simp add: faq_store_def)
  ultimately show ?thesis using r by simp
qed

subsection \<open>Ingestion is idempotent\<close>

lemma surviving_rows_keys:
  "seen \<union> identity h ` set (surviving_rows h seen rs) = seen \<union> identity h ` set rs"
proof (induction rs arbitrary: seen)
  case Nil
  then show ?case by simp
next
  case (Cons r rs)
  show ?case
  proof (cases "identity h r \<in> seen")
    case True
    then show ?thesis using Cons.IH [of seen] by auto
  next
    case False
    have "insert (identity h r) seen \<union>
            identity h ` set (surviving_rows h (insert (identity h r) seen) rs) =
          insert (identity h r) seen \<union> identity h ` set rs"
      by (rule Cons.IH)
    with False show ?thesis by auto
  qed
qed

lemma surviving_rows_none:
  "\<forall>r\<in>set rs. identity h r \<in> seen \<Longrightarrow> surviving_rows h seen rs = []"
  by (induction rs arbitrary: seen) auto

lemma validate_row_triple:
  "validate_row r = Some v \<Longrightarrow>
     content_triple r = (Some (row_data_type v), Some (row_title v), Some (row_content v))"
  by (cases "raw_namespace r"; cases "raw_data_type r"; cases "raw_title r";
      cases "raw_content r"; cases "raw_keywords r")
     (auto simp: validate_row_def content_triple_def)

lemma validate_rows_triples:
  "validate_rows i rows = Inr valid \<Longrightarrow>
     map content_triple rows =
     map (\<lambda>v. (Some (row_data_type v), Some (row_title v), Some (row_content v))) valid"
proof (induction rows arbitrary: i valid)
  case Nil
  then show ?case by simp
next
  case (Cons r rs)
  from Cons.prems obtain v vs where v: "validate_row r = Some v"
    and vs: "validate_rows (Suc i) rs = Inr vs" and valid: "valid = v # vs"
    by (auto split: option.splits sum.splits)
  from Cons.IH [OF vs] validate_row_triple [OF v] valid show ?case by simp
qed

lemma same_triples_same_identities:
  assumes "validate_rows i rows = Inr valid" and "validate_rows j rows' = Inr valid'"
    and "map content_triple rows' = map content_triple rows"
  shows "identity h ` set valid' = identity h ` set valid"
proof -
  let ?t = "\<lambda>v. (Some (row_data_type v), Some (row_title v), Some (row_content v))"
  let ?g = "\<lambda>p. case p of (a, b, c) \<Rightarrow> h (the a, the b, the c)"
  have id: "map (identity h) w = map ?g (map ?t w)" for w
    by (simp add: identity_def)
  have "map ?t valid' = map content_triple rows'"
    by (rule validate_rows_triples [symmetric, OF assms(2)])
  also have "\<dots> = map content_triple rows" by (rule assms(3))
  also have "\<dots> = map ?t valid" by (rule validate_rows_triples [OF assms(1)])
  finally have "map (identity h) valid' = map (identity h) valid"
    by (simp only: id)
  then have "set (map (identity h) valid') = set (map (identity h) valid)"
    by (rule arg_cong)
  then show ?thesis by (simp only: set_map)
qed

lemma map2_keys:
  "length vs = length rs \<Longrightarrow> set (map chunk_key (map2 (make_chunk h) rs vs)) = identity h ` set rs"
  by (induction rs vs rule: list_induct2') (auto simp: make_chunk_def)

lemma append_chunks_nil: "append_chunks st [] = st"
  by (simp add: append_chunks_def)

lemma ingest_repeat:
  assumes first: "ingest h emb1 reg ns rows reset_flag = (Inr n, reg1)"
    and contract: "\<forall>rs vs. emb1 rs = Some vs \<longrightarrow> length vs = length rs"
    and same: "map content_triple rows' = map content_triple rows"
  shows "snd (ingest h emb2 reg1 ns rows' False) = reg1"
    and "\<And>m. fst (ingest h emb2 reg1 ns rows' False) = Inr m \<Longrightarrow> m = 0"
    and "validate_rows 0 rows' = Inr valid' \<Longrightarrow> emb2 [] \<noteq> None \<Longrightarrow>
           fst (ingest h emb2 reg1 ns rows' False) = Inr 0"
    and "validate_rows 0 rows' = Inr valid' \<Longrightarrow>
           fst (ingest h emb2 reg1 ns rows' False) = Inr 0 \<or>
           fst (ingest h emb2 reg1 ns rows' False) = Inl EmbeddingServiceError"
proof -
  define reg0 where "reg0 = (if reset_flag then reset_store reg ns else reg)"
  define st0 where "st0 = get_store reg0 ns"
  from first obtain valid where v: "validate_rows 0 rows = Inr valid"
    by (auto simp: ingest_def Let_def split: sum.splits)
  define survivors where "survivors = surviving_rows h (keys st0) valid"
  from first v obtain vs where e: "emb1 survivors = Some vs"
    by (auto simp: ingest_def Let_def reg0_def st0_def survivors_def split: option.splits)
  with contract have len: "length vs = length survivors" by blast
  define st1 where "st1 = append_chunks st0 (map2 (make_chunk h) survivors vs)"
  from first v e have reg1: "reg1 = reg0(ns \<mapsto> st1)"
    by (auto simp: ingest_def Let_def reg0_def st0_def survivors_def st1_def)
  have g: "get_store reg1 ns = st1" by (simp add: reg1 get_store_def)
  have "keys st1 = keys st0 \<union> identity h ` set survivors"
    using map2_keys [OF len, of h] by (simp add: st1_def append_chunks_def)
  then have k: "identity h ` set valid \<subseteq> keys st1"
    using surviving_rows_keys [of "keys st0" h valid] by (auto simp: survivors_def)
  have none: "surviving_rows h (keys st1) w = []" if "validate_rows 0 rows' = Inr w" for w
    using same_triples_same_identities [OF v that same, of h] k
    by (intro surviving_rows_none) auto
  have triv: "reg1(ns \<mapsto> append_chunks st1 []) = reg1"
    by (simp add: append_chunks_nil reg1)
  show "snd (ingest h emb2 reg1 ns rows' False) = reg1"
    using none triv by (auto simp: ingest_def Let_def g split: sum.split option.split)
  show "m = 0" if "fst (ingest h emb2 reg1 ns rows' False) = Inr m" for m
    using that none by (auto simp: ingest_def Let_def g split: sum.splits option.splits)
  show "fst (ingest h emb2 reg1 ns rows' False) = Inr 0"
    if "validate_rows 0 rows' = Inr valid'" "emb2 [] \<noteq> None"
    using that none by (auto simp: ingest_def Let_def g split: sum.splits option.splits)
  show "fst (ingest h emb2 reg1 ns rows' False) = Inr 0 \<or>
        fst (ingest h emb2 reg1 ns rows' False) = Inl EmbeddingServiceError"
    if "validate_rows 0 rows' = Inr valid'"
    using that none by (auto simp: ingest_def Let_def g split: sum.splits option.splits)
qed

text \<open>
  C5. Let an ingestion of some rows succeed, with an embedding capability that returns one
  vector for each row it is given. Ingesting the same rows again with reset = false leaves
  the registry, hence the store and its size, as it is; the call returns 0 newly added
  records (or fails with \<open>EmbeddingServiceError\<close>, when the capability fails on the empty
  batch it is given). The same holds for any rows with the same (data_type, title, content)
  triples, whatever their keywords: nothing is added.
\<close>

theorem ingest_is_idempotent:
  assumes "ingest h emb1 reg ns rows reset_flag = (Inr n, reg1)"
    and "\<forall>rs vs. emb1 rs = Some vs \<longrightarrow> length vs = length rs"
  shows "snd (ingest h emb2 reg1 ns rows False) = reg1 \<and>
         length (chunks (get_store (snd (ingest h emb2 reg1 ns rows False)) ns)) =
           length (chunks (get_store reg1 ns)) \<and>
         (fst (ingest h emb2 reg1 ns rows False) = Inr 0 \<or>
          fst (ingest h emb2 reg1 ns rows False) = Inl EmbeddingServiceError) \<and>
         (emb2 [] \<noteq> None \<longrightarrow> fst (ingest h emb2 reg1 ns rows False) = Inr 0) \<and>
         (\<forall>rows'. map content_triple rows' = map content_triple rows \<longrightarrow>
            snd (ingest h emb2 reg1 ns rows' False) = reg1 \<and>
            (\<forall>m. fst (ingest h emb2 reg1 ns rows' False) = Inr m \<longrightarrow> m = 0))"
proof -
  from assms(1) obtain valid where v: "validate_rows 0 rows = Inr valid"
    by (auto simp: ingest_def Let_def split: sum.splits)
  note same = ingest_repeat [OF assms refl, where ?emb2.0 = emb2]
  have a: "snd (ingest h emb2 reg1 ns rows False) = reg1" by (rule same(1))
  have b: "fst (ingest h emb2 reg1 ns rows False) = Inr 0 \<or>
           fst (ingest h emb2 reg1 ns rows False) = Inl EmbeddingServiceError"
    by (rule same(4) [OF v])
  have c: "emb2 [] \<noteq> None \<longrightarrow> fst (ingest h emb2 reg1 ns rows False) = Inr 0"
    using same(3) [OF v] by blast
  have d: "snd (ingest h emb2 reg1 ns rows' False) = reg1 \<and>
           (\<forall>m. fst (ingest h emb2 reg1 ns rows' False) = Inr m \<longrightarrow> m = 0)"
    if "map content_triple rows' = map content_triple rows" for rows'
    using ingest_repeat(1,2) [OF assms that, where ?emb2.0 = emb2] by blast
  from a b c d show ?thesis by simp
qed

theorem ingest_is_idempotent_witness:
  "ingest triple_hash unit_embedder Map.empty ''myco'' [faq_row ''login,password''] True =
     (Inr 1, [''myco'' \<mapsto> faq_store]) \<and>
   ingest triple_hash unit_embedder [''myco'' \<mapsto> faq_store] ''myco''
     [faq_row ''login,password''] False = (Inr 0, [''myco'' \<mapsto> faq_store]) \<and>
   ingest triple_hash unit_embedder [''myco'' \<mapsto> faq_store] ''myco''
     [faq_row ''sign-in''] False = (Inr 0, [''myco'' \<mapsto> faq_store])"
proof -
  have first: "ingest triple_hash unit_embedder Map.empty ''myco''
                 [faq_row ''login,password''] True = (Inr 1, [''myco'' \<mapsto> faq_store])"
    by (simp add: ingest_def Let_def reset_store_def get_store_def empty_store_def
          validate_row_def faq_row_def unit_embedder_def identity_def triple_hash_def
          make_chunk_def append_chunks_def metadata_of_def faq_store_def)
  have contract: "\<forall>rs vs. unit_embedder rs = Some vs \<longrightarrow> length vs = length rs"
    by (auto simp: unit_embedder_def)
  have e: "unit_embedder [] \<noteq> None" by (simp add: unit_embedder_def)
  have t: "map content_triple [faq_row ''sign-in''] =
           map content_triple [faq_row ''login,password'']"
    by (simp add: content_triple_def faq_row_def)
  note i = ingest_is_idempotent [OF first contract, where ?emb2.0 = unit_embedder]
  from i e have "ingest triple_hash unit_embedder [''myco'' \<mapsto> faq_store] ''myco''
       [faq_row ''login,password''] False = (Inr 0, [''myco'' \<mapsto> faq_store])"
    by (simp add: prod_eq_iff)
  moreover have "ingest triple_hash unit_embedder [''myco'' \<mapsto> faq_store] ''myco''
       [faq_row ''sign-in''] False = (Inr 0, [''myco'' \<mapsto> faq_store])"
    by (simp add: ingest_def Let_def get_store_def validate_row_def faq_row_def
          unit_embedder_def identity_def triple_hash_def append_chunks_def faq_store_def)
  ultimately show ?thesis using first by simp
qed

subsection \<open>MMR with weight 1\<close>

lemma preferred_one: "preferred 1 selected a b \<longleftrightarrow> rank_key a < rank_key b"
  by (auto simp: preferred_def mmr_score_def rank_key_def less_prod_def)

lemma pick_best_split:
  assumes "pre = as @ best # bs"
    and "\<forall>y\<in>set as. rank_key best < rank_key y"
    and "\<forall>y\<in>set bs. rank_key best \<le> rank_key y"
  shows "\<exists>as' bs'. pre @ cs = as' @ pick_best 1 selected best cs # bs' \<and>
           (\<forall>y\<in>set as'. rank_key (pick_best 1 selected best cs) < rank_key y) \<and>
           (\<forall>y\<in>set bs'. rank_key (pick_best 1 selected best cs) \<le> rank_key y)"
  using assms
proof (induction cs arbitrary: pre best as bs)
  case Nil
  then show ?case by auto
next
  case (Cons c cs)
  show ?case
  proof (cases "rank_key c < rank_key best")
    case True
    have "pre @ [c] = (as @ best # bs) @ c # []" using Cons.prems(1) by simp
    moreover have "\<forall>y\<in>set (as @ best # bs). rank_key c < rank_key y"
      using True Cons.prems(2,3) by (auto intro: less_trans less_le_trans)
    ultimately have "\<exists>as' bs'. (pre @ [c]) @ cs = as' @ pick_best 1 selected c cs # bs' \<and>
           (\<forall>y\<in>set as'. rank_key (pick_best 1 selected c cs) < rank_key y) \<and>
           (\<forall>y\<in>set bs'. rank_key (pick_best 1 selected c cs) \<le> rank_key y)"
      by (intro Cons.IH [where bs = "[]"]) auto
    with True show ?thesis by (simp add: preferred_one)
  next
    case False
    have "pre @ [c] = as @ best # (bs @ [c])" using Cons.prems(1) by simp
    moreover have "\<forall>y\<in>set (bs @ [c]). rank_key best \<le> rank_key y"
      using False Cons.prems(3) by auto
    ultimately have "\<exists>as' bs'. (pre @ [c]) @ cs = as' @ pick_best 1 selected best cs # bs' \<and>
           (\<forall>y\<in>set as'. rank_key (pick_best 1 selected best cs) < rank_key y) \<and>
           (\<forall>y\<in>set bs'. rank_key (pick_best 1 selected best cs) \<le> rank_key y)"
      using Cons.prems(2) by (intro Cons.IH) auto
    with False show ?thesis by (simp add: preferred_one)
  qed
qed

lemma insort_key_least:
  "\<forall>y\<in>set ys. f m \<le> f y \<Longrightarrow> insort_key f m ys = m # ys"
  by (cases ys) auto

lemma sort_key_first_min:
  fixes f :: "'a \<Rightarrow> 'b::linorder"
  assumes "\<forall>y\<in>set as. f m < f y" and "\<forall>y\<in>set bs. f m \<le> f y"
  shows "sort_key f (as @ m # bs) = m # sort_key f (as @ bs)"
  using assms
proof (induction as)
  case Nil
  then show ?case by (simp add: insort_key_least)
next
  case (Cons a as)
  then have "sort_key f (as @ m # bs) = m # sort_key f (as @ bs)" by simp
  moreover have "\<not> f a \<le> f m" using Cons.prems(1) by auto
  ultimately show ?case by simp
qed

lemma remove1_first_min:
  fixes f :: "'a \<Rightarrow> 'b::linorder"
  assumes "\<forall>y\<in>set as. f m < f y"
  shows "remove1 m (as @ m # bs) = as @ bs"
proof -
  have "m \<notin> set as" using assms by auto
  then show ?thesis by (simp add: remove1_append)
qed

lemma sort_key_pick_best:
  "sort_key rank_key (c # cs) =
     pick_best 1 selected c cs # sort_key rank_key (remove1 (pick_best 1 selected c cs) (c # cs))"
proof -
  obtain as bs where s: "[c] @ cs = as @ pick_best 1 selected c cs # bs"
    and a: "\<forall>y\<in>set as. rank_key (pick_best 1 selected c cs) < rank_key y"
    and b: "\<forall>y\<in>set bs. rank_key (pick_best 1 selected c cs) \<le> rank_key y"
    using pick_best_split [of "[c]" "[]" c "[]" cs selected] by auto
  from s have "c # cs = as @ pick_best 1 selected c cs # bs" by simp
  then show ?thesis
    using sort_key_first_min [OF a b] remove1_first_min [OF a, of bs] by simp
qed

lemma mmr_select_one:
  "mmr_select 1 k selected pool = selected @ take k (sort_key rank_key pool)"
proof (induction k arbitrary: selected pool)
  case 0
  then show ?case by simp
next
  case (Suc k)
  show ?case
  proof (cases pool)
    case Nil
    then show ?thesis by simp
  next
    case (Cons c cs)
    define best where "best = pick_best 1 selected c cs"
    have eq: "sort_key rank_key (c # cs) = best # sort_key rank_key (remove1 best (c # cs))"
      unfolding best_def by (rule sort_key_pick_best)
    have tk: "take (Suc k) (sort_key rank_key (c # cs)) =
              best # take k (sort_key rank_key (remove1 best (c # cs)))"
      by (subst eq) (rule take_Suc_Cons)
    have "mmr_select 1 (Suc k) selected (c # cs) =
          (selected @ [best]) @ take k (sort_key rank_key (remove1 best (c # cs)))"
      by (simp only: mmr_select.simps Let_def Suc.IH best_def)
    also have "\<dots> = selected @ take (Suc k) (sort_key rank_key (c # cs))"
      by (simp only: tk append_assoc append_Cons append_Nil)
    finally show ?thesis using Cons by simp
  qed
qed

text \<open>
  The diversity term does have an effect below weight 1: with weight 1/2 the second pick
  avoids the candidate that repeats the direction of the first.
\<close>

lemma mmr_half_diversifies:
  "mmr (1 / 2) 2
     [sample_hit 0 (9 / 10) [1, 0], sample_hit 1 (17 / 20) [1, 0], sample_hit 2 (1 / 2) [0, 1]] =
     [sample_hit 0 (9 / 10) [1, 0], sample_hit 2 (1 / 2) [0, 1]] \<and>
   plain_top_k 2
     [sample_hit 0 (9 / 10) [1, 0], sample_hit 1 (17 / 20) [1, 0], sample_hit 2 (1 / 2) [0, 1]] =
     [sample_hit 0 (9 / 10) [1, 0], sample_hit 1 (17 / 20) [1, 0]]"
  by (simp add: mmr_def plain_top_k_def Let_def preferred_def mmr_score_def dot_def
        rank_key_def sample_hit_def numeral_2_eq_2 less_eq_prod_def)

text \<open>
  C7. For every candidate pool and every number of results, MMR selection with weight 1
  returns the list that plain similarity-ranked selection returns: the first candidates
  by similarity descending, ties by insertion order, in that order.
\<close>

theorem mmr_lambda_one_is_plain_top_k: "mmr 1 k pool = plain_top_k k pool"
  unfolding mmr_def plain_top_k_def by (simp add: mmr_select_one)

end
